theory Spec2Isabelle
  imports Main "HOL-Library.Word" "HOL-Library.Signed_Division"
begin

unbundle bit_operations_syntax

section \<open>Machine model\<close>

text \<open>
  The MT3620 real-time core is a 32-bit little-endian Cortex-M4: \<open>uintptr_t\<close>,
  \<open>size_t\<close>, \<open>uint32_t\<close> and \<open>int\<close> are 32 bits wide, and address arithmetic
  wraps modulo \<open>2 ^ 32\<close>. Memory is byte addressed; the memory-mapped registers are
  taken as plain read/write storage. The only special register the header touches is
  \<open>BASEPRI\<close>.
\<close>

type_synonym u8 = "8 word"
type_synonym u32 = "32 word"
type_synonym u64 = "64 word"

record machine =
  mem :: "u32 \<Rightarrow> u8"
  BASEPRI :: u32

text \<open>A volatile 32-bit access is four byte lanes, least significant byte first.\<close>

definition load32 :: "(u32 \<Rightarrow> u8) \<Rightarrow> u32 \<Rightarrow> u32" where
  "load32 m a =
     ucast (m a) OR push_bit 8 (ucast (m (a + 1))) OR
     push_bit 16 (ucast (m (a + 2))) OR push_bit 24 (ucast (m (a + 3)))"

definition store32 :: "(u32 \<Rightarrow> u8) \<Rightarrow> u32 \<Rightarrow> u32 \<Rightarrow> (u32 \<Rightarrow> u8)" where
  "store32 m a v =
     m(a := ucast v, a + 1 := ucast (drop_bit 8 v),
       a + 2 := ucast (drop_bit 16 v), a + 3 := ucast (drop_bit 24 v))"

section \<open>mt3620-baremetal.h\<close>

definition SCB_BASE :: u32 where
  "SCB_BASE = 0xE000ED00"

definition NVIC_ISER_BASE :: u32 where
  "NVIC_ISER_BASE = 0xE000E100"

definition NVIC_IPR_BASE :: u32 where
  "NVIC_IPR_BASE = 0xE000E400"

definition IRQ_PRIORITY_BITS :: nat where
  "IRQ_PRIORITY_BITS = 3"

definition WriteReg8 :: "u32 \<Rightarrow> u32 \<Rightarrow> u8 \<Rightarrow> machine \<Rightarrow> machine" where
  "WriteReg8 baseAddr offset v s = s\<lparr>mem := (mem s)(baseAddr + offset := v)\<rparr>"

definition WriteReg32 :: "u32 \<Rightarrow> u32 \<Rightarrow> u32 \<Rightarrow> machine \<Rightarrow> machine" where
  "WriteReg32 baseAddr offset v s = s\<lparr>mem := store32 (mem s) (baseAddr + offset) v\<rparr>"

definition ReadReg32 :: "u32 \<Rightarrow> u32 \<Rightarrow> machine \<Rightarrow> u32" where
  "ReadReg32 baseAddr offset s = load32 (mem s) (baseAddr + offset)"

definition ClearReg32 :: "u32 \<Rightarrow> u32 \<Rightarrow> u32 \<Rightarrow> machine \<Rightarrow> machine" where
  "ClearReg32 baseAddr offset clearBits s =
     (let v = ReadReg32 baseAddr offset s;
          v' = v AND NOT clearBits
      in WriteReg32 baseAddr offset v' s)"

definition SetReg32 :: "u32 \<Rightarrow> u32 \<Rightarrow> u32 \<Rightarrow> machine \<Rightarrow> machine" where
  "SetReg32 baseAddr offset setBits s =
     (let v = ReadReg32 baseAddr offset s;
          v' = v OR setBits
      in WriteReg32 baseAddr offset v' s)"

text \<open>
  \<open>BlockIrqs\<close> and \<open>RestoreIrqs\<close> are \<open>static inline\<close> and consist of \<open>asm\<close> statements.
  The two \<open>msr BASEPRI, %0\<close> statements have no output operand, which makes them
  volatile: each one executes and writes the register. The statement
  \<open>mrs %0, BASEPRI\<close> in \<open>BlockIrqs\<close> has an output operand and is not declared
  \<open>volatile\<close>. The compiler takes such a statement for a function of its input
  operands, of which this one has none: once the calls are inlined into their caller,
  it may replace an execution of the statement by the result of an earlier one instead
  of reading the register again. The state of the caller is therefore the machine
  together with \<open>mrs_seen\<close>, the result of the \<open>mrs\<close> statement the compiler holds from
  an earlier execution, and \<open>reuse\<close> says whether the compiler reuses it where it has
  one.
\<close>

record caller = machine +
  mrs_seen :: "u32 option"

definition mrs_BASEPRI :: "bool \<Rightarrow> caller \<Rightarrow> u32 \<times> caller" where
  "mrs_BASEPRI reuse s =
     (case mrs_seen s of
        Some v \<Rightarrow>
          if reuse then (v, s)
          else (BASEPRI s, s\<lparr>mrs_seen := Some (BASEPRI s)\<rparr>)
      | None \<Rightarrow> (BASEPRI s, s\<lparr>mrs_seen := Some (BASEPRI s)\<rparr>))"

definition msr_BASEPRI :: "u32 \<Rightarrow> caller \<Rightarrow> caller" where
  "msr_BASEPRI v s = s\<lparr>BASEPRI := v\<rparr>"

definition BlockIrqs :: "bool \<Rightarrow> caller \<Rightarrow> u32 \<times> caller" where
  "BlockIrqs reuse s =
     (let newBasePri = 1;
          (prevBasePri, s1) = mrs_BASEPRI reuse s;
          s2 = msr_BASEPRI newBasePri s1
      in (prevBasePri, s2))"

definition RestoreIrqs :: "u32 \<Rightarrow> caller \<Rightarrow> caller" where
  "RestoreIrqs prevBasePri s = msr_BASEPRI prevBasePri s"

text \<open>
  C's \<open>/\<close> and \<open>%\<close> on \<open>int\<close> truncate towards zero. In \<open>SetNvicPriority\<close> the
  \<open>uint8_t\<close> priority is promoted to \<open>int\<close>, shifted, and converted back to
  \<open>uint8_t\<close> at the call of \<open>WriteReg8\<close>; the \<open>int\<close> interrupt number becomes the
  \<open>size_t\<close> offset.
\<close>

definition c_div :: "u32 \<Rightarrow> u32 \<Rightarrow> u32" where
  "c_div a b = word_of_int (sint a sdiv sint b)"

definition c_mod :: "u32 \<Rightarrow> u32 \<Rightarrow> u32" where
  "c_mod a b = word_of_int (sint a smod sint b)"

definition SetNvicPriority :: "u32 \<Rightarrow> u8 \<Rightarrow> machine \<Rightarrow> machine" where
  "SetNvicPriority irqNum pri s =
     WriteReg8 NVIC_IPR_BASE irqNum
       (ucast (push_bit (8 - IRQ_PRIORITY_BITS) (ucast pri :: u32))) s"

text \<open>
  In \<open>EnableNvicInterrupt\<close> the shift count \<open>irqNum % 32\<close> is negative for a negative
  interrupt number that is no multiple of 32; C leaves such a shift undefined, and the
  model returns \<open>None\<close> there.
\<close>

definition EnableNvicInterrupt :: "u32 \<Rightarrow> machine \<Rightarrow> machine option" where
  "EnableNvicInterrupt irqNum s =
     (let offset = 4 * c_div irqNum 32;
          sh = c_mod irqNum 32
      in if sint sh < 0 then None
         else Some (SetReg32 NVIC_ISER_BASE offset (push_bit (unat sh) 1) s))"

text \<open>
  \<open>POW2_CEIL\<close>: the comparisons are against \<open>unsigned long long\<close> constants, so the
  argument is compared as a 64-bit unsigned value, and the conditional expression as a
  whole has a 64-bit unsigned type.
\<close>

definition POW2_CEIL :: "u64 \<Rightarrow> u64" where
  "POW2_CEIL x =
     (if x > 0x8000000000000000 then 0 else
      if x > 0x4000000000000000 then 0x8000000000000000 else
      if x > 0x2000000000000000 then 0x4000000000000000 else
      if x > 0x1000000000000000 then 0x2000000000000000 else
      if x > 0x0800000000000000 then 0x1000000000000000 else
      if x > 0x0400000000000000 then 0x0800000000000000 else
      if x > 0x0200000000000000 then 0x0400000000000000 else
      if x > 0x0100000000000000 then 0x0200000000000000 else
      if x > 0x0080000000000000 then 0x0100000000000000 else
      if x > 0x0040000000000000 then 0x0080000000000000 else
      if x > 0x0020000000000000 then 0x0040000000000000 else
      if x > 0x0010000000000000 then 0x0020000000000000 else
      if x > 0x0008000000000000 then 0x0010000000000000 else
      if x > 0x0004000000000000 then 0x0008000000000000 else
      if x > 0x0002000000000000 then 0x0004000000000000 else
      if x > 0x0001000000000000 then 0x0002000000000000 else
      if x > 0x0000800000000000 then 0x0001000000000000 else
      if x > 0x0000400000000000 then 0x0000800000000000 else
      if x > 0x0000200000000000 then 0x0000400000000000 else
      if x > 0x0000100000000000 then 0x0000200000000000 else
      if x > 0x0000080000000000 then 0x0000100000000000 else
      if x > 0x0000040000000000 then 0x0000080000000000 else
      if x > 0x0000020000000000 then 0x0000040000000000 else
      if x > 0x0000010000000000 then 0x0000020000000000 else
      if x > 0x0000008000000000 then 0x0000010000000000 else
      if x > 0x0000004000000000 then 0x0000008000000000 else
      if x > 0x0000002000000000 then 0x0000004000000000 else
      if x > 0x0000001000000000 then 0x0000002000000000 else
      if x > 0x0000000800000000 then 0x0000001000000000 else
      if x > 0x0000000400000000 then 0x0000000800000000 else
      if x > 0x0000000200000000 then 0x0000000400000000 else
      if x > 0x0000000100000000 then 0x0000000200000000 else
      if x > 0x0000000080000000 then 0x0000000100000000 else
      if x > 0x0000000040000000 then 0x80000000 else
      if x > 0x0000000020000000 then 0x40000000 else
      if x > 0x0000000010000000 then 0x20000000 else
      if x > 0x0000000008000000 then 0x10000000 else
      if x > 0x0000000004000000 then 0x08000000 else
      if x > 0x0000000002000000 then 0x04000000 else
      if x > 0x0000000001000000 then 0x02000000 else
      if x > 0x0000000000800000 then 0x01000000 else
      if x > 0x0000000000400000 then 0x00800000 else
      if x > 0x0000000000200000 then 0x00400000 else
      if x > 0x0000000000100000 then 0x00200000 else
      if x > 0x0000000000080000 then 0x00100000 else
      if x > 0x0000000000040000 then 0x00080000 else
      if x > 0x0000000000020000 then 0x00040000 else
      if x > 0x0000000000010000 then 0x00020000 else
      if x > 0x0000000000008000 then 0x00010000 else
      if x > 0x0000000000004000 then 0x8000 else
      if x > 0x0000000000002000 then 0x4000 else
      if x > 0x0000000000001000 then 0x2000 else
      if x > 0x0000000000000800 then 0x1000 else
      if x > 0x0000000000000400 then 0x0800 else
      if x > 0x0000000000000200 then 0x0400 else
      if x > 0x0000000000000100 then 0x0200 else
      if x > 0x0000000000000080 then 0x0100 else
      if x > 0x0000000000000040 then 0x80 else
      if x > 0x0000000000000020 then 0x40 else
      if x > 0x0000000000000010 then 0x20 else
      if x > 0x0000000000000008 then 0x10 else
      if x > 0x0000000000000004 then 0x08 else
      if x > 0x0000000000000002 then 0x04 else
      if x > 0x0000000000000001 then 0x02 else
      0x01)"

text \<open>
  The same chain of comparisons written as a recursion over the exponent; it serves the
  proofs about \<open>POW2_CEIL\<close> only.
\<close>

fun pow2_chain :: "nat \<Rightarrow> u64 \<Rightarrow> u64" where
  "pow2_chain 0 x = 1"
| "pow2_chain (Suc k) x = (if x > 2 ^ k then 2 ^ Suc k else pow2_chain k x)"

section \<open>The real-time application (main.c)\<close>

definition INTERRUPT_COUNT :: nat where
  "INTERRUPT_COUNT = 100"

definition EXCEPTION_COUNT :: nat where
  "EXCEPTION_COUNT = 16 + INTERRUPT_COUNT"

definition INT_TO_EXC :: "nat \<Rightarrow> nat" where
  "INT_TO_EXC i = 16 + i"

definition sizeof_uintptr_t :: nat where
  "sizeof_uintptr_t = 4"

definition EXCEPTION_TABLE_EXPECTED_SIZE :: nat where
  "EXCEPTION_TABLE_EXPECTED_SIZE = EXCEPTION_COUNT * sizeof_uintptr_t"

definition EXCEPTION_TABLE_ALIGNMENT :: nat where
  "EXCEPTION_TABLE_ALIGNMENT =
     unat (if POW2_CEIL (of_nat EXCEPTION_TABLE_EXPECTED_SIZE) < 128 then 128
           else POW2_CEIL (of_nat EXCEPTION_TABLE_EXPECTED_SIZE))"

text \<open>
  \<open>EXCEPTION_VECTOR_TABLE\<close> is a struct whose only member is the array
  \<open>v[EXCEPTION_COUNT]\<close> of \<open>uintptr_t\<close>, declared with
  \<open>__attribute__((aligned(EXCEPTION_TABLE_ALIGNMENT)))\<close>. The size of a struct is a
  multiple of its alignment: the member's bytes are padded up to the next multiple.
\<close>

definition sizeof_EXCEPTION_VECTOR_TABLE :: nat where
  "sizeof_EXCEPTION_VECTOR_TABLE =
     ((EXCEPTION_TABLE_EXPECTED_SIZE + EXCEPTION_TABLE_ALIGNMENT - 1)
        div EXCEPTION_TABLE_ALIGNMENT) * EXCEPTION_TABLE_ALIGNMENT"

text \<open>
  \<open>LOCAL_C_ASSERT(e)\<close> declares a \<open>char\<close> array type of length \<open>(e) ? 1 : -1\<close>; the
  translation unit compiles only when that length is positive.
\<close>

definition LOCAL_C_ASSERT :: "bool \<Rightarrow> int" where
  "LOCAL_C_ASSERT e = (if e then 1 else - 1)"

text \<open>
  The table's initialiser is a list of designators \<open>.v[i] = x\<close>, the last one a range
  \<open>.v[a ... b] = x\<close>; elements without a designator are zero. The addresses of
  \<open>StackTop\<close>, \<open>RTCoreMain\<close> and \<open>DefaultExceptionHandler\<close> are fixed by the linker
  and are parameters here.
\<close>

definition designate :: "u32 list \<Rightarrow> (nat \<times> u32) list \<Rightarrow> u32 list" where
  "designate = foldl (\<lambda>t (i, x). t[i := x])"

definition designate_range :: "nat \<Rightarrow> nat \<Rightarrow> u32 \<Rightarrow> (nat \<times> u32) list" where
  "designate_range a b x = map (\<lambda>i. (i, x)) [a ..< Suc b]"

definition ExceptionVectorTable :: "u32 \<Rightarrow> u32 \<Rightarrow> u32 \<Rightarrow> u32 list" where
  "ExceptionVectorTable StackTop RTCoreMain DefaultExceptionHandler =
     designate (replicate EXCEPTION_COUNT 0)
       ([(0, StackTop),
         (1, RTCoreMain),
         (2, DefaultExceptionHandler),
         (3, DefaultExceptionHandler),
         (4, DefaultExceptionHandler),
         (5, DefaultExceptionHandler),
         (6, DefaultExceptionHandler),
         (11, DefaultExceptionHandler),
         (12, DefaultExceptionHandler),
         (14, DefaultExceptionHandler),
         (15, DefaultExceptionHandler)] @
        designate_range (INT_TO_EXC 0) (INT_TO_EXC (INTERRUPT_COUNT - 1))
          DefaultExceptionHandler)"

subsection \<open>The sampling loop\<close>

text \<open>
  The timer, ADC and UART drivers (\<open>mt3620-timer-poll.h\<close>, \<open>mt3620-adc.h\<close>,
  \<open>mt3620-uart-poll.h\<close>) are external to the translation unit: a call to one of them is
  an event, and a run of the loop is the sequence of its events.
\<close>

datatype call =
    Gpt3_WaitUs u32
  | ReadAdc u32
  | Uart_WriteStringPoll string
  | Uart_WriteIntegerPoll u32
  | Uart_WriteIntegerWidthPoll u32 nat

definition CRLF :: string where
  "CRLF = [char_of (13 :: nat), char_of (10 :: nat)]"

text \<open>
  The millivolt value of a raw sample. The arithmetic is \<open>uint32_t\<close>: the product wraps
  modulo \<open>2 ^ 32\<close> and the division is unsigned.
\<close>

definition mV :: "u32 \<Rightarrow> u32" where
  "mV val = (val * 2500) div 0xFFF"

text \<open>One turn of the loop in \<open>RTCoreMain\<close>; \<open>val\<close> is what \<open>ReadAdc(0)\<close> returned.\<close>

definition RTCoreMain_loop :: "u32 \<Rightarrow> call list" where
  "RTCoreMain_loop val =
     [Gpt3_WaitUs (1000 * 1000),
      ReadAdc 0,
      Uart_WriteIntegerPoll (mV val div 1000),
      Uart_WriteStringPoll ''.'',
      Uart_WriteIntegerWidthPoll (mV val mod 1000) 3,
      Uart_WriteStringPoll CRLF]"

subsection \<open>What the serial line carries\<close>

text \<open>
  Modelled from the spec: the UART driver is missing from the sources; an integer is
  transmitted in decimal, most significant digit first, as ASCII digits.
\<close>

definition digit_char :: "nat \<Rightarrow> char" where
  "digit_char d = ''0123456789'' ! d"

text \<open>
  Modelled from the spec: the decimal digits of \<open>write_integer(n)\<close>, whose code is
  missing from the sources.
\<close>

fun decimal :: "nat \<Rightarrow> string" where
  "decimal n = (if n < 10 then [digit_char n] else decimal (n div 10) @ [digit_char (n mod 10)])"

declare decimal.simps [simp del]

text \<open>
  Modelled from the spec: the UART driver is missing from the sources. The serial
  collaborator's \<open>write_string(s)\<close> transmits the bytes of \<open>s\<close>, \<open>write_integer(n)\<close>
  transmits \<open>n\<close> in decimal, and \<open>write_integer_width(n, min_digits)\<close> transmits \<open>n\<close> in
  decimal, zero-padded to \<open>min_digits\<close> digits. The timer and the ADC transmit nothing.
\<close>

fun transmitted :: "call \<Rightarrow> string" where
  "transmitted (Uart_WriteStringPoll str) = str"
| "transmitted (Uart_WriteIntegerPoll v) = decimal (unat v)"
| "transmitted (Uart_WriteIntegerWidthPoll v width) =
     replicate (width - length (decimal (unat v))) CHR ''0'' @ decimal (unat v)"
| "transmitted (Gpt3_WaitUs us) = []"
| "transmitted (ReadAdc channel) = []"

definition serial_output :: "call list \<Rightarrow> string" where
  "serial_output cs = concat (map transmitted cs)"

section \<open>Register access\<close>

lemma lane_distinct:
  "(a::u32) + 1 \<noteq> a" "a + 2 \<noteq> a" "a + 3 \<noteq> a"
  "a + 2 \<noteq> a + 1" "a + 3 \<noteq> a + 1" "a + 3 \<noteq> a + 2"
  "a \<noteq> a + 1" "a \<noteq> a + 2" "a \<noteq> a + 3"
  "a + 1 \<noteq> a + 2" "a + 1 \<noteq> a + 3" "a + 2 \<noteq> a + 3"
  by simp_all

lemma store32_lanes:
  "store32 m a v a = ucast v"
  "store32 m a v (a + 1) = ucast (drop_bit 8 v)"
  "store32 m a v (a + 2) = ucast (drop_bit 16 v)"
  "store32 m a v (a + 3) = ucast (drop_bit 24 v)"
  by (simp_all add: store32_def lane_distinct)

lemma word32_of_lanes:
  "ucast (ucast v :: u8) OR push_bit 8 (ucast (ucast (drop_bit 8 v) :: u8)) OR
   push_bit 16 (ucast (ucast (drop_bit 16 v) :: u8)) OR
   push_bit 24 (ucast (ucast (drop_bit 24 v) :: u8)) = (v :: u32)"
proof (rule bit_word_eqI)
  fix n assume "n < LENGTH(32)"
  then consider "n < 8" | "8 \<le> n" "n < 16" | "16 \<le> n" "n < 24" | "24 \<le> n" "n < 32"
    by fastforce
  then show "bit (ucast (ucast v :: u8) OR push_bit 8 (ucast (ucast (drop_bit 8 v) :: u8)) OR
     push_bit 16 (ucast (ucast (drop_bit 16 v) :: u8)) OR
     push_bit 24 (ucast (ucast (drop_bit 24 v) :: u8)) :: u32) n = bit v n"
    by cases (auto simp: bit_simps)
qed

lemma load32_store32: "load32 (store32 m a v) a = v"
  by (simp add: load32_def store32_lanes word32_of_lanes)

lemma ReadReg32_WriteReg32:
  "ReadReg32 b off (WriteReg32 b off v s) = v"
  by (simp add: ReadReg32_def WriteReg32_def load32_store32)

lemma ReadReg32_SetReg32:
  "ReadReg32 b off (SetReg32 b off setBits s) = (ReadReg32 b off s OR setBits)"
  by (simp add: SetReg32_def Let_def ReadReg32_WriteReg32)

lemma ReadReg32_ClearReg32:
  "ReadReg32 b off (ClearReg32 b off clearBits s) = (ReadReg32 b off s AND NOT clearBits)"
  by (simp add: ClearReg32_def Let_def ReadReg32_WriteReg32)

lemma SetReg32_frame:
  "a \<notin> {b + off, b + off + 1, b + off + 2, b + off + 3} \<Longrightarrow>
     mem (SetReg32 b off setBits s) a = mem s a"
  "BASEPRI (SetReg32 b off setBits s) = BASEPRI s"
  by (simp_all add: SetReg32_def Let_def WriteReg32_def store32_def)

lemma store32_same: "store32 (store32 m a v) a v = store32 m a v"
  by (rule ext) (simp add: store32_def)

lemma SetReg32_twice:
  "SetReg32 b off setBits (SetReg32 b off setBits s) = SetReg32 b off setBits s"
proof -
  have "ReadReg32 b off (SetReg32 b off setBits s) OR setBits = ReadReg32 b off s OR setBits"
    by (simp add: ReadReg32_SetReg32 or.assoc)
  then show ?thesis
    by (simp add: SetReg32_def [of b off setBits "SetReg32 b off setBits s"] Let_def)
      (simp add: SetReg32_def Let_def WriteReg32_def store32_same)
qed

text \<open>
  C6. On plain read/write memory, for every base address, offset, mask and initial
  register content, reading the register back after \<open>SetReg32\<close> gives the old value with
  the mask or-ed in, and after \<open>ClearReg32\<close> the old value with the mask's bits removed.
\<close>

theorem C6_set_clear_readback:
  "ReadReg32 b off (SetReg32 b off setBits s) = (ReadReg32 b off s OR setBits) \<and>
   ReadReg32 b off (ClearReg32 b off clearBits s) = (ReadReg32 b off s AND NOT clearBits)"
  by (simp add: ReadReg32_SetReg32 ReadReg32_ClearReg32)

section \<open>Critical sections\<close>

text \<open>
  Where every \<open>mrs\<close> statement reads the register, a block/restore pair gives back the
  mask it found, whatever that was, and so do two strictly nested pairs; between the
  inner restore and the outer one the mask is the blocking value 1.
\<close>

lemma block_restore_fresh_read:
  "BASEPRI (RestoreIrqs (fst (BlockIrqs False s)) (snd (BlockIrqs False s))) = BASEPRI s \<and>
   (let (outer, s1) = BlockIrqs False s;
        (inner, s2) = BlockIrqs False s1;
        s3 = RestoreIrqs inner s2
    in inner = 1 \<and> BASEPRI s3 = 1 \<and> BASEPRI (RestoreIrqs outer s3) = BASEPRI s)"
  by (simp add: BlockIrqs_def RestoreIrqs_def mrs_BASEPRI_def msr_BASEPRI_def Let_def
      split: option.split)

text \<open>
  C4 does not hold of the header as it stands. With the mask at \<open>0x20\<close> and two nested
  block/restore pairs inlined into one caller, a compiler that reuses the result of the
  first \<open>mrs\<close> statement hands the inner \<open>BlockIrqs\<close> the outer token \<open>0x20\<close> instead
  of the mask 1 then in force. The inner \<open>RestoreIrqs\<close> then sets the mask to \<open>0x20\<close>:
  the inner pair does not restore the value it found, and interrupts are unblocked
  inside the outer critical section. Only the final mask is the original one.
\<close>

theorem C4_reused_read_breaks_nesting:
  "(let s = \<lparr>mem = (\<lambda>a. 0), BASEPRI = 0x20, mrs_seen = None\<rparr>;
        (outer, s1) = BlockIrqs True s;
        (inner, s2) = BlockIrqs True s1;
        s3 = RestoreIrqs inner s2;
        s4 = RestoreIrqs outer s3
    in outer = 0x20 \<and> BASEPRI s1 = 1 \<and> inner = 0x20 \<and> BASEPRI s2 = 1 \<and>
       BASEPRI s3 = 0x20 \<and> BASEPRI s3 \<noteq> BASEPRI s1 \<and> BASEPRI s4 = 0x20)"
  by (simp add: BlockIrqs_def RestoreIrqs_def mrs_BASEPRI_def msr_BASEPRI_def Let_def)

section \<open>Interrupt control\<close>

subsection \<open>Priorities\<close>

lemma priority_byte:
  "mem (SetNvicPriority irqNum pri s) (NVIC_IPR_BASE + irqNum) = push_bit 5 pri"
proof -
  have "(ucast (push_bit 5 (ucast pri :: u32)) :: u8) = push_bit 5 pri"
    by (rule bit_word_eqI) (auto simp: bit_simps)
  then show ?thesis
    by (simp add: SetNvicPriority_def WriteReg8_def IRQ_PRIORITY_BITS_def)
qed

lemma SetNvicPriority_frame:
  "a \<noteq> NVIC_IPR_BASE + irqNum \<Longrightarrow> mem (SetNvicPriority irqNum pri s) a = mem s a"
  "BASEPRI (SetNvicPriority irqNum pri s) = BASEPRI s"
  by (simp_all add: SetNvicPriority_def WriteReg8_def)

lemma low5_clear: "push_bit 5 (pri :: u8) AND 0x1F = 0"
proof -
  have "take_bit 5 (push_bit 5 pri) = 0"
    by (rule bit_word_eqI) (auto simp: bit_simps)
  then show ?thesis
    by (simp add: take_bit_eq_mask mask_eq_exp_minus_1)
qed

lemma top3_field: "drop_bit 5 (push_bit 5 (pri :: u8)) = pri AND 7"
proof -
  have "drop_bit 5 (push_bit 5 pri) = take_bit 3 pri"
    by (rule bit_word_eqI) (auto simp: bit_simps)
  then show ?thesis
    by (simp add: take_bit_eq_mask mask_eq_exp_minus_1)
qed

lemma in_range_field:
  assumes "pri \<le> 7"
  shows "(pri :: u8) AND 7 = pri" and "unat (push_bit 5 pri) = 32 * unat pri"
proof -
  from assms have le: "unat pri \<le> 7" by (simp add: word_le_nat_alt)
  then have "unat pri < 2 ^ 3" by simp
  then have "unat (take_bit 3 pri) = unat pri"
    by (simp only: unsigned_take_bit_eq take_bit_nat_eq_self)
  then have "take_bit 3 pri = pri" by (simp only: word_unat_eq_iff)
  then show "pri AND 7 = pri"
    by (simp add: take_bit_eq_mask mask_eq_exp_minus_1)
  from le show "unat (push_bit 5 pri) = 32 * unat pri"
    by (simp add: push_bit_eq_mult unat_word_ariths)
qed

text \<open>
  C3, as the code has it. Whatever the priority, \<open>SetNvicPriority\<close> stores one byte, at
  \<open>NVIC_IPR_BASE + irqNum\<close>, overwriting what it held; its low five bits are zero and
  its top three bits are the low three bits of the priority, so a priority above 7 is
  cut down modulo 8 and no bit outside the field is ever set. No other byte of memory
  changes. For a priority in
  0..7 the field holds the priority itself: the byte is \<open>32 * pri\<close>.
\<close>

theorem C3_priority_field:
  "(let s' = SetNvicPriority irqNum pri s;
        byte = mem s' (NVIC_IPR_BASE + irqNum)
    in byte AND 0x1F = 0 \<and> drop_bit 5 byte = pri AND 7 \<and>
       (pri \<le> 7 \<longrightarrow> drop_bit 5 byte = pri \<and> unat byte = 32 * unat pri) \<and>
       (\<forall>a. a \<noteq> NVIC_IPR_BASE + irqNum \<longrightarrow> mem s' a = mem s a) \<and>
       BASEPRI s' = BASEPRI s)"
  by (simp add: Let_def priority_byte low5_clear top3_field in_range_field
      SetNvicPriority_frame)

theorem C3_priority_field_witness:
  "(5 :: u8) \<le> 7 \<and>
   unat (mem (SetNvicPriority 3 5 \<lparr>mem = (\<lambda>a. 0xFF), BASEPRI = 0\<rparr>) (NVIC_IPR_BASE + 3)) = 160 \<and>
   drop_bit 5 (mem (SetNvicPriority 3 5 \<lparr>mem = (\<lambda>a. 0xFF), BASEPRI = 0\<rparr>) (NVIC_IPR_BASE + 3)) = 5 \<and>
   mem (SetNvicPriority 3 5 \<lparr>mem = (\<lambda>a. 0xFF), BASEPRI = 0\<rparr>) (NVIC_IPR_BASE + 4) = 0xFF"
  using C3_priority_field [of 3 5 "\<lparr>mem = (\<lambda>a. 0xFF), BASEPRI = 0\<rparr>"]
  by (simp add: Let_def NVIC_IPR_BASE_def)

text \<open>
  C3 as the specification words it does not hold: there is no priority above 7 (indeed
  none at all) for which the byte written has a nonzero bit below the three-bit field.
\<close>

theorem C3_no_stray_bits:
  "\<not> (\<exists>pri irqNum s. 7 < pri \<and>
        mem (SetNvicPriority irqNum pri s) (NVIC_IPR_BASE + irqNum) AND 0x1F \<noteq> 0)"
  by (simp add: priority_byte low5_clear)

subsection \<open>Enabling an interrupt\<close>

lemma sint_of_nat_small: "i < 2 ^ 31 \<Longrightarrow> sint (of_nat i :: u32) = int i"
  by (simp add: signed_of_nat signed_take_bit_int_eq_self)

lemma c_div_of_nat:
  assumes "i < 2 ^ 31"
  shows "c_div (of_nat i) 32 = of_nat (i div 32)"
proof -
  have "int i sdiv 32 = int (i div 32)"
    by (cases "i = 0") (simp_all add: signed_divide_int_def zdiv_int)
  with assms show ?thesis by (simp add: c_div_def sint_of_nat_small)
qed

lemma c_mod_of_nat:
  assumes "i < 2 ^ 31"
  shows "c_mod (of_nat i) 32 = of_nat (i mod 32)"
proof -
  have "int i smod 32 = int (i mod 32)"
    by (simp add: smod_mod_positive zmod_int)
  with assms show ?thesis by (simp add: c_mod_def sint_of_nat_small)
qed

lemma shift_count:
  "sint (of_nat (i mod 32) :: u32) = int (i mod 32)"
  "unat (of_nat (i mod 32) :: u32) = i mod 32"
proof -
  have "i mod 32 < 2 ^ 31" by (simp add: less_le_trans [OF mod_less_divisor])
  then show "sint (of_nat (i mod 32) :: u32) = int (i mod 32)"
    by (rule sint_of_nat_small)
  show "unat (of_nat (i mod 32) :: u32) = i mod 32"
    by (simp add: unat_of_nat less_le_trans [OF mod_less_divisor])
qed

lemma EnableNvicInterrupt_of_nat:
  "i < 2 ^ 31 \<Longrightarrow> EnableNvicInterrupt (of_nat i) s =
     Some (SetReg32 NVIC_ISER_BASE (of_nat (4 * (i div 32))) (push_bit (i mod 32) 1) s)"
  by (simp add: EnableNvicInterrupt_def Let_def c_div_of_nat c_mod_of_nat shift_count)

lemma EnableNvicInterrupt_twice:
  "Option.bind (EnableNvicInterrupt irqNum s) (EnableNvicInterrupt irqNum) =
     EnableNvicInterrupt irqNum s"
  by (simp add: EnableNvicInterrupt_def Let_def SetReg32_twice)

text \<open>
  C5. For every interrupt number \<open>i\<close> below \<open>INTERRUPT_COUNT\<close>, \<open>EnableNvicInterrupt\<close>
  is defined and acts on the enable word at byte offset \<open>4 * (i div 32)\<close> from
  \<open>NVIC_ISER_BASE\<close>: afterwards bit \<open>i mod 32\<close> of that word is set and every other bit
  of it is as before. No byte outside that word changes, nor does \<open>BASEPRI\<close>.
\<close>

theorem C5_enable_sets_bit:
  assumes "i < INTERRUPT_COUNT"
  shows "case EnableNvicInterrupt (of_nat i) s of
           None \<Rightarrow> False
         | Some s' \<Rightarrow>
             (let off = of_nat (4 * (i div 32));
                  w = NVIC_ISER_BASE + off
              in (\<forall>n < 32. bit (ReadReg32 NVIC_ISER_BASE off s') n =
                    (n = i mod 32 \<or> bit (ReadReg32 NVIC_ISER_BASE off s) n)) \<and>
                 (\<forall>a. a \<notin> {w, w + 1, w + 2, w + 3} \<longrightarrow> mem s' a = mem s a) \<and>
                 BASEPRI s' = BASEPRI s)"
proof -
  from assms have i: "i < 2 ^ 31" by (simp add: INTERRUPT_COUNT_def)
  have k: "i mod 32 < 32" by simp
  let ?off = "of_nat (4 * (i div 32)) :: u32"
  let ?s' = "SetReg32 NVIC_ISER_BASE ?off (push_bit (i mod 32) 1) s"
  have bits: "\<forall>n < 32. bit (ReadReg32 NVIC_ISER_BASE ?off ?s') n =
      (n = i mod 32 \<or> bit (ReadReg32 NVIC_ISER_BASE ?off s) n)"
    using k by (auto simp: ReadReg32_SetReg32 bit_simps)
  show ?thesis
    using bits
    by (simp add: EnableNvicInterrupt_of_nat [OF i] SetReg32_frame Let_def del: of_nat_mult)
qed

theorem C5_enable_sets_bit_witness:
  "(37 :: nat) < INTERRUPT_COUNT \<and>
   (case EnableNvicInterrupt 37 \<lparr>mem = (\<lambda>a. 0), BASEPRI = 0\<rparr> of
      None \<Rightarrow> False
    | Some s' \<Rightarrow>
        bit (ReadReg32 NVIC_ISER_BASE 4 s') 5 \<and>
        \<not> bit (ReadReg32 NVIC_ISER_BASE 4 s') 6 \<and>
        mem s' NVIC_ISER_BASE = 0)"
proof -
  have h: "(37 :: nat) < INTERRUPT_COUNT" by (simp add: INTERRUPT_COUNT_def)
  have z: "ReadReg32 b 4 \<lparr>mem = (\<lambda>a. 0), BASEPRI = 0\<rparr> = 0" for b
    by (simp add: ReadReg32_def load32_def)
  show ?thesis
    using h C5_enable_sets_bit [OF h, of "\<lparr>mem = (\<lambda>a. 0), BASEPRI = 0\<rparr>"]
    by (auto simp: Let_def z NVIC_ISER_BASE_def split: option.splits)
qed

lemma EnableNvicInterrupt_defined:
  assumes "0 \<le> sint irqNum"
  shows "\<exists>s'. EnableNvicInterrupt irqNum s = Some s'"
proof -
  have "sint irqNum < 2 ^ 31" using sint_lt [of irqNum] by simp
  with assms have n: "nat (sint irqNum) < 2 ^ 31" by simp
  have "irqNum = of_nat (nat (sint irqNum))"
    using assms by simp
  then show ?thesis
    using EnableNvicInterrupt_of_nat [OF n, of s] by simp
qed

text \<open>
  C8. Enabling an interrupt twice is the same as enabling it once, for every interrupt
  number and every state of memory: the second call returns the state the first one
  produced. For a non-negative interrupt number both calls are defined.
\<close>

theorem C8_enable_idempotent:
  "Option.bind (EnableNvicInterrupt irqNum s) (EnableNvicInterrupt irqNum) =
     EnableNvicInterrupt irqNum s \<and>
   (0 \<le> sint irqNum \<longrightarrow>
      (\<exists>s'. EnableNvicInterrupt irqNum s = Some s' \<and> EnableNvicInterrupt irqNum s' = Some s'))"
proof (intro conjI impI)
  show "Option.bind (EnableNvicInterrupt irqNum s) (EnableNvicInterrupt irqNum) =
     EnableNvicInterrupt irqNum s"
    by (rule EnableNvicInterrupt_twice)
next
  assume "0 \<le> sint irqNum"
  then obtain s' where s': "EnableNvicInterrupt irqNum s = Some s'"
    using EnableNvicInterrupt_defined by blast
  with EnableNvicInterrupt_twice [of irqNum s]
  have "EnableNvicInterrupt irqNum s' = Some s'" by simp
  with s' show "\<exists>s'. EnableNvicInterrupt irqNum s = Some s' \<and> EnableNvicInterrupt irqNum s' = Some s'"
    by blast
qed

theorem C8_enable_idempotent_witness:
  "0 \<le> sint (37 :: u32) \<and>
   (\<exists>s'. EnableNvicInterrupt 37 \<lparr>mem = (\<lambda>a. 0), BASEPRI = 0\<rparr> = Some s' \<and>
         EnableNvicInterrupt 37 s' = Some s')"
  using C8_enable_idempotent [of 37 "\<lparr>mem = (\<lambda>a. 0), BASEPRI = 0\<rparr>"] by simp


section \<open>Power-of-two ceiling\<close>

lemma POW2_CEIL_chain: "POW2_CEIL x = (if x > 2 ^ 63 then 0 else pow2_chain 63 x)"
  unfolding POW2_CEIL_def by (simp add: eval_nat_numeral)

lemma unat_pow2: "k < 64 \<Longrightarrow> unat (2 ^ k :: u64) = 2 ^ k"
proof -
  assume "k < 64"
  then have "(2::nat) ^ k < 2 ^ 64" by (intro power_strict_increasing) simp_all
  then have "(2::nat) ^ k mod 2 ^ LENGTH(64) = 2 ^ k" by simp
  moreover have "unat (of_nat (2 ^ k) :: u64) = 2 ^ k mod 2 ^ LENGTH(64)"
    by (rule unat_of_nat)
  ultimately show ?thesis by simp
qed

lemma pow2_chain_least:
  "k < 64 \<Longrightarrow> unat x \<le> 2 ^ k \<Longrightarrow>
     \<exists>j\<le>k. pow2_chain k x = 2 ^ j \<and> unat x \<le> 2 ^ j \<and> (\<forall>i. unat x \<le> 2 ^ i \<longrightarrow> j \<le> i)"
proof (induction k)
  case 0
  then show ?case by (intro exI [of _ 0]) simp
next
  case (Suc k)
  show ?case
  proof (cases "x > 2 ^ k")
    case True
    then have lt: "2 ^ k < unat x"
      using Suc.prems(1) by (simp add: word_less_nat_alt unat_pow2)
    have "\<forall>i. unat x \<le> 2 ^ i \<longrightarrow> Suc k \<le> i"
    proof (intro allI impI)
      fix i assume "unat x \<le> 2 ^ i"
      with lt have "(2::nat) ^ k < 2 ^ i" by (rule less_le_trans)
      then have "k < i" by simp
      then show "Suc k \<le> i" by simp
    qed
    with True Suc.prems show ?thesis
      by (intro exI [of _ "Suc k"]) simp
  next
    case False
    then have "unat x \<le> 2 ^ k"
      using Suc.prems(1) by (simp add: word_less_nat_alt unat_pow2 not_less)
    with Suc.IH Suc.prems(1) obtain j where "j \<le> k" "pow2_chain k x = 2 ^ j"
      "unat x \<le> 2 ^ j" "\<forall>i. unat x \<le> 2 ^ i \<longrightarrow> j \<le> i"
      by auto
    with False show ?thesis by (intro exI [of _ j]) simp
  qed
qed

text \<open>
  C9. For every \<open>x\<close> with \<open>1 \<le> x \<le> 2 ^ 63\<close>, \<open>POW2_CEIL x\<close> is the least power of two
  that is at least \<open>x\<close>: it is a power of two, it is at least \<open>x\<close>, and every power of
  two that is at least \<open>x\<close> has an exponent at least as large. In particular a power of
  two is mapped to itself.
\<close>

theorem C9_pow2_ceil_least:
  assumes "1 \<le> x" and "x \<le> 2 ^ 63"
  shows "(\<exists>k. unat (POW2_CEIL x) = 2 ^ k \<and> unat x \<le> 2 ^ k \<and>
              (\<forall>j. unat x \<le> 2 ^ j \<longrightarrow> k \<le> j)) \<and>
         (\<forall>j < 64. x = 2 ^ j \<longrightarrow> POW2_CEIL x = x)"
proof -
  from assms(2) have le: "unat x \<le> 2 ^ 63"
    using unat_pow2 [of 63] by (simp add: word_le_nat_alt)
  from assms(2) have "\<not> x > 2 ^ 63" by (simp only: not_less)
  then have chain: "POW2_CEIL x = pow2_chain 63 x"
    by (simp only: POW2_CEIL_chain if_False)
  from pow2_chain_least [of 63 x] le obtain k where k: "k \<le> 63" "pow2_chain 63 x = 2 ^ k"
    "unat x \<le> 2 ^ k" "\<forall>j. unat x \<le> 2 ^ j \<longrightarrow> k \<le> j"
    by auto
  have val: "unat (POW2_CEIL x) = 2 ^ k"
    using k(1,2) chain unat_pow2 [of k] by simp
  have pw: "POW2_CEIL x = x" if "j < 64" "x = 2 ^ j" for j
  proof -
    from that have "unat x = 2 ^ j" by (simp add: unat_pow2)
    with k(3,4) have "k \<le> j" "(2::nat) ^ j \<le> 2 ^ k" by simp_all
    then have "k = j" by simp
    with k(2) chain that show ?thesis by simp
  qed
  from val k(3,4) pw show ?thesis by blast
qed

theorem C9_pow2_ceil_least_witness:
  "(1 :: u64) \<le> 512 \<and> (512 :: u64) \<le> 2 ^ 63 \<and> (9 :: nat) < 64 \<and> (512 :: u64) = 2 ^ 9 \<and>
   POW2_CEIL 512 = 512"
proof -
  have h: "(1 :: u64) \<le> 512" "(512 :: u64) \<le> 2 ^ 63" by simp_all
  from C9_pow2_ceil_least [OF h]
  have "\<forall>j < 64. (512 :: u64) = 2 ^ j \<longrightarrow> POW2_CEIL 512 = 512" by (rule conjunct2)
  from this [rule_format, of 9] have "POW2_CEIL 512 = 512" by simp
  with h show ?thesis by simp
qed

section \<open>The exception vector table\<close>

lemma expected_size: "EXCEPTION_TABLE_EXPECTED_SIZE = 464"
  by (simp add: EXCEPTION_TABLE_EXPECTED_SIZE_def EXCEPTION_COUNT_def INTERRUPT_COUNT_def
      sizeof_uintptr_t_def)

lemma POW2_CEIL_464: "POW2_CEIL 464 = 512"
  by (simp add: POW2_CEIL_def)

lemma alignment: "EXCEPTION_TABLE_ALIGNMENT = 512"
  by (simp add: EXCEPTION_TABLE_ALIGNMENT_def expected_size POW2_CEIL_464)

lemma sizeof_table: "sizeof_EXCEPTION_VECTOR_TABLE = 512"
  by (simp add: sizeof_EXCEPTION_VECTOR_TABLE_def expected_size alignment)

text \<open>
  C2, as the code has it. The array inside the table has \<open>(16 + INTERRUPT_COUNT)\<close>
  entries of pointer size, 464 bytes with 100 interrupts and 4-byte pointers. The table
  type is aligned to \<open>max(128, POW2_CEIL(464)) = 512\<close> bytes, which pads its size to 512
  bytes, and the build-time assertion compares the size with the alignment: it holds for
  512 and would not compile had it compared the size with the expected 464 bytes.
\<close>

theorem C2_table_size_alignment:
  "EXCEPTION_TABLE_EXPECTED_SIZE = (16 + INTERRUPT_COUNT) * sizeof_uintptr_t \<and>
   EXCEPTION_TABLE_EXPECTED_SIZE = 464 \<and>
   EXCEPTION_TABLE_ALIGNMENT = max 128 (unat (POW2_CEIL (of_nat EXCEPTION_TABLE_EXPECTED_SIZE))) \<and>
   EXCEPTION_TABLE_ALIGNMENT = 512 \<and>
   sizeof_EXCEPTION_VECTOR_TABLE = 512 \<and>
   LOCAL_C_ASSERT (sizeof_EXCEPTION_VECTOR_TABLE = EXCEPTION_TABLE_ALIGNMENT) = 1 \<and>
   LOCAL_C_ASSERT (sizeof_EXCEPTION_VECTOR_TABLE = EXCEPTION_TABLE_EXPECTED_SIZE) = - 1"
  by (simp add: sizeof_table alignment expected_size POW2_CEIL_464 LOCAL_C_ASSERT_def
      INTERRUPT_COUNT_def sizeof_uintptr_t_def)

text \<open>
  C2 as the specification words it does not hold: the in-memory size of the table is
  not \<open>(16 + INTERRUPT_COUNT) * sizeof(uintptr_t)\<close>.
\<close>

theorem C2_size_is_not_expected_size:
  "sizeof_EXCEPTION_VECTOR_TABLE \<noteq> (16 + INTERRUPT_COUNT) * sizeof_uintptr_t"
  by (simp add: sizeof_table INTERRUPT_COUNT_def sizeof_uintptr_t_def)

subsection \<open>The initialiser\<close>

lemma designate_append: "designate t (xs @ ys) = designate (designate t xs) ys"
  by (simp add: designate_def)

lemma designate_simps:
  "designate t [] = t"
  "designate t ((i, x) # ds) = designate (t[i := x]) ds"
  by (simp_all add: designate_def)

lemma length_designate: "length (designate t ds) = length t"
  by (induction ds arbitrary: t) (auto simp: designate_simps)

lemma designate_range_nth:
  "designate t (map (\<lambda>i. (i, x)) [a ..< b]) =
     map (\<lambda>i. if a \<le> i \<and> i < b then x else t ! i) [0 ..< length t]"
proof (induction b)
  case 0
  then show ?case by (simp add: designate_simps map_nth)
next
  case (Suc b)
  show ?case
  proof (cases "a \<le> b")
    case True
    have "designate t (map (\<lambda>i. (i, x)) [a ..< Suc b]) =
          (designate t (map (\<lambda>i. (i, x)) [a ..< b]))[b := x]"
      using True by (simp add: designate_append designate_simps)
    also have "\<dots> = map (\<lambda>i. if a \<le> i \<and> i < Suc b then x else t ! i) [0 ..< length t]"
      unfolding Suc.IH using True
      by (intro nth_equalityI) (auto simp: nth_list_update less_Suc_eq)
    finally show ?thesis .
  next
    case False
    then have "designate t (map (\<lambda>i. (i, x)) [a ..< Suc b]) = t"
      by (simp add: designate_simps)
    moreover from False
    have "t = map (\<lambda>i. if a \<le> i \<and> i < Suc b then x else t ! i) [0 ..< length t]"
      by (intro nth_equalityI) auto
    ultimately show ?thesis by simp
  qed
qed

lemma zero_table: "replicate EXCEPTION_COUNT (0::u32) =
   [0,0,0,0,0,0,0,0,0,0,0,0,0,0,0,0] @ replicate INTERRUPT_COUNT 0"
  by (simp add: EXCEPTION_COUNT_def replicate_add [symmetric] del: replicate_add) (simp add: eval_nat_numeral)

lemma nth_prefix_replicate:
  "length P = n \<Longrightarrow> n \<le> i \<Longrightarrow> i < n + m \<Longrightarrow> (P @ replicate m x) ! i = x"
  by (simp add: nth_append)

lemma range_over_prefix:
  assumes "length P = n"
  shows "map (\<lambda>i. if n \<le> i \<and> i < n + m then x else (P @ replicate m y) ! i)
           [0 ..< length (P @ replicate m y)] = P @ replicate m x"
  using assms by (intro nth_equalityI) (auto simp: nth_append)

lemma table_explicit:
  "ExceptionVectorTable st rm dh =
     [st, rm, dh, dh, dh, dh, dh, 0, 0, 0, 0, dh, dh, 0, dh, dh] @ replicate INTERRUPT_COUNT dh"
proof -
  define named where "named = [st, rm, dh, dh, dh, dh, dh, 0, 0, 0, 0, dh, dh, 0, dh, dh]"
  have len: "length named = 16" by (simp add: named_def)
  have named: "designate (replicate EXCEPTION_COUNT 0)
      [(0, st), (1, rm), (2, dh), (3, dh), (4, dh), (5, dh), (6, dh), (11, dh), (12, dh),
       (14, dh), (15, dh)] = named @ replicate INTERRUPT_COUNT 0"
    by (simp add: zero_table designate_simps list_update_append named_def)
  have "designate (named @ replicate INTERRUPT_COUNT 0)
          (designate_range (INT_TO_EXC 0) (INT_TO_EXC (INTERRUPT_COUNT - 1)) dh) =
        map (\<lambda>i. if 16 \<le> i \<and> i < 16 + INTERRUPT_COUNT then dh
                  else (named @ replicate INTERRUPT_COUNT 0) ! i)
          [0 ..< length (named @ replicate INTERRUPT_COUNT 0)]"
    unfolding designate_range_def designate_range_nth
    by (simp add: INT_TO_EXC_def INTERRUPT_COUNT_def)
  also have "\<dots> = named @ replicate INTERRUPT_COUNT dh"
    by (rule range_over_prefix [OF len])
  finally show ?thesis
    by (simp only: ExceptionVectorTable_def designate_append named) (simp only: named_def)
qed

lemma table_irq_slot:
  assumes "16 \<le> i" and "i \<le> 115"
  shows "ExceptionVectorTable st rm dh ! i = dh"
proof -
  from assms have "i < 16 + INTERRUPT_COUNT" by (simp add: INTERRUPT_COUNT_def)
  with assms(1) show ?thesis
    unfolding table_explicit by (intro nth_prefix_replicate) simp_all
qed

text \<open>
  C7. The table has \<open>EXCEPTION_COUNT\<close> slots. Slot 0 is the address of \<open>StackTop\<close>, slot 1
  the reset entry \<open>RTCoreMain\<close>; slots 2 to 6, 11, 12, 14 and 15 and the hundred interrupt
  slots 16 to 115 are \<open>DefaultExceptionHandler\<close>; the reserved slots 7 to 10 and 13 are
  zero.
\<close>

theorem C7_vector_table_slots:
  "(let t = ExceptionVectorTable StackTop RTCoreMain DefaultExceptionHandler
    in length t = EXCEPTION_COUNT \<and>
       t ! 0 = StackTop \<and>
       t ! 1 = RTCoreMain \<and>
       (\<forall>i \<in> {2, 3, 4, 5, 6, 11, 12, 14, 15}. t ! i = DefaultExceptionHandler) \<and>
       (\<forall>i \<in> {16 .. 115}. t ! i = DefaultExceptionHandler) \<and>
       (\<forall>i \<in> {7, 8, 9, 10, 13}. t ! i = 0))"
proof -
  have "\<forall>i \<in> {16 .. 115}.
      ExceptionVectorTable StackTop RTCoreMain DefaultExceptionHandler ! i = DefaultExceptionHandler"
    by (simp add: table_irq_slot)
  moreover have "length (ExceptionVectorTable StackTop RTCoreMain DefaultExceptionHandler) =
      EXCEPTION_COUNT"
    by (simp add: table_explicit EXCEPTION_COUNT_def)
  moreover have "ExceptionVectorTable StackTop RTCoreMain DefaultExceptionHandler ! 0 = StackTop"
    "ExceptionVectorTable StackTop RTCoreMain DefaultExceptionHandler ! 1 = RTCoreMain"
    "\<forall>i \<in> {2, 3, 4, 5, 6, 11, 12, 14, 15}.
       ExceptionVectorTable StackTop RTCoreMain DefaultExceptionHandler ! i = DefaultExceptionHandler"
    "\<forall>i \<in> {7, 8, 9, 10, 13}.
       ExceptionVectorTable StackTop RTCoreMain DefaultExceptionHandler ! i = 0"
    by (simp_all add: table_explicit)
  ultimately show ?thesis by (simp only: Let_def)
qed

theorem C7_vector_table_slots_witness:
  "(3 :: nat) \<in> {2, 3, 4, 5, 6, 11, 12, 14, 15} \<and> (57 :: nat) \<in> {16 .. 115} \<and>
   (13 :: nat) \<in> {7, 8, 9, 10, 13} \<and>
   ExceptionVectorTable 0x00108000 0x00100241 0x00100231 ! 3 = 0x00100231 \<and>
   ExceptionVectorTable 0x00108000 0x00100241 0x00100231 ! 57 = 0x00100231 \<and>
   ExceptionVectorTable 0x00108000 0x00100241 0x00100231 ! 13 = 0 \<and>
   ExceptionVectorTable 0x00108000 0x00100241 0x00100231 ! 0 = 0x00108000"
  using C7_vector_table_slots [of "0x00108000" "0x00100241" "0x00100231"]
  by (simp add: Let_def)

section \<open>Millivolt conversion and the serial line\<close>

lemma raw_bounds:
  assumes "val \<le> (0xFFF :: u32)"
  shows "unat val \<le> 4095" and "unat (val * 2500) = unat val * 2500"
    and "unat (mV val) = unat val * 2500 div 4095"
proof -
  from assms show le: "unat val \<le> 4095" by (simp add: word_le_nat_alt)
  then have "unat val * 2500 < 2 ^ 32" by simp
  then show prod: "unat (val * 2500) = unat val * 2500"
    by (simp add: unat_word_ariths)
  then show "unat (mV val) = unat val * 2500 div 4095"
    by (simp add: mV_def unat_div)
qed

text \<open>
  C10. For a raw sample in \<open>0 .. 0xFFF\<close> the product \<open>val * 2500\<close> is at most 10237500
  and does not wrap in 32 bits; the millivolt value is the exact quotient and lies in
  \<open>0 .. 2500\<close>, so the whole part is at most 2 and the fractional part is below 1000.
\<close>

theorem C10_no_overflow_and_ranges:
  assumes "val \<le> 0xFFF"
  shows "unat val * 2500 \<le> 10237500 \<and>
         unat (val * 2500) = unat val * 2500 \<and>
         unat (mV val) = unat val * 2500 div 4095 \<and>
         unat (mV val) \<le> 2500 \<and>
         unat (mV val div 1000) \<le> 2 \<and>
         unat (mV val mod 1000) < 1000"
proof -
  note b = raw_bounds [OF assms]
  from b(1) have p: "unat val * 2500 \<le> 10237500" by simp
  then have m: "unat (mV val) \<le> 2500" by (simp add: b(3))
  then have "unat (mV val div 1000) \<le> 2" by (simp add: unat_div)
  moreover have "unat (mV val mod 1000) < 1000" by (simp add: unat_mod)
  ultimately show ?thesis using p m b(2,3) by simp
qed

theorem C10_no_overflow_and_ranges_witness:
  "(2048 :: u32) \<le> 0xFFF \<and> unat ((2048 :: u32) * 2500) = 5120000 \<and> unat (mV 2048) = 1250 \<and>
   unat (mV 2048 div 1000) = 1 \<and> unat (mV 2048 mod 1000) = 250"
  using C10_no_overflow_and_ranges [of 2048] by (simp add: mV_def)

lemma digit_char_0: "digit_char 0 = CHR ''0''"
  by (simp add: digit_char_def)

lemma decimal_1: "n < 10 \<Longrightarrow> decimal n = [digit_char n]"
  by (simp add: decimal.simps)

lemma decimal_2:
  "10 \<le> n \<Longrightarrow> n < 100 \<Longrightarrow> decimal n = [digit_char (n div 10), digit_char (n mod 10)]"
  by (subst decimal.simps) (simp add: decimal_1)

lemma decimal_3:
  "100 \<le> n \<Longrightarrow> n < 1000 \<Longrightarrow>
     decimal n = [digit_char (n div 100), digit_char (n div 10 mod 10), digit_char (n mod 10)]"
  by (subst decimal.simps) (simp add: decimal_2 div_mult2_eq [symmetric])

lemma padded_3:
  assumes "n < 1000"
  shows "replicate (3 - length (decimal n)) CHR ''0'' @ decimal n =
     [digit_char (n div 100), digit_char (n div 10 mod 10), digit_char (n mod 10)]"
proof -
  consider "n < 10" | "10 \<le> n" "n < 100" | "100 \<le> n"
    by fastforce
  then show ?thesis
  proof cases
    case 1
    then show ?thesis by (simp add: decimal_1 digit_char_0 numeral_3_eq_3)
  next
    case 2
    then show ?thesis by (simp add: decimal_2 digit_char_0)
  next
    case 3
    with assms show ?thesis by (simp add: decimal_3)
  qed
qed

lemma serial_line:
  "serial_output (RTCoreMain_loop val) =
     decimal (unat (mV val div 1000)) @ ''.'' @
     (replicate (3 - length (decimal (unat (mV val mod 1000)))) CHR ''0'' @
      decimal (unat (mV val mod 1000))) @ CRLF"
  by (simp add: serial_output_def RTCoreMain_loop_def)

lemma digits: "digit_char 0 = CHR ''0''" "digit_char (Suc 0) = CHR ''1''" "digit_char 2 = CHR ''2''"
  "digit_char 3 = CHR ''3''" "digit_char 4 = CHR ''4''" "digit_char 5 = CHR ''5''"
  "digit_char 6 = CHR ''6''" "digit_char 7 = CHR ''7''" "digit_char 8 = CHR ''8''"
  "digit_char 9 = CHR ''9''"
  by (simp_all add: digit_char_def)

lemma line_digits:
  assumes "val \<le> 0xFFF"
  shows "serial_output (RTCoreMain_loop val) =
     [digit_char (unat (mV val) div 1000), CHR ''.'',
      digit_char (unat (mV val) mod 1000 div 100),
      digit_char (unat (mV val) mod 1000 div 10 mod 10),
      digit_char (unat (mV val) mod 1000 mod 10)] @ CRLF"
proof -
  have "unat (mV val) \<le> 2500"
    using raw_bounds [OF assms] by simp
  then have "unat (mV val div 1000) < 10" by (simp add: unat_div)
  moreover have "unat (mV val mod 1000) < 1000" by (simp add: unat_mod)
  ultimately show ?thesis
    by (simp only: serial_line decimal_1 padded_3) (simp add: unat_div unat_mod)
qed

text \<open>
  C1, as the code has it. For every 12-bit raw sample the millivolt value is
  \<open>raw * 2500 div 0xFFF\<close>, and the line sent is the whole part (one digit), a dot, the
  three digits of the fractional part, and CR LF. Sample \<open>0xFFF\<close> gives 2500 and
  \<open>2.500\<close>, sample 0 gives \<open>0.000\<close>; sample 2048 gives 1250 and \<open>1.250\<close>, and it is
  sample 2047 that gives 1249 and \<open>1.249\<close>.
\<close>

theorem C1_millivolt_line:
  assumes "val \<le> 0xFFF"
  shows "unat (mV val) = unat val * 2500 div 4095 \<and>
         serial_output (RTCoreMain_loop val) =
           [digit_char (unat (mV val) div 1000), CHR ''.'',
            digit_char (unat (mV val) mod 1000 div 100),
            digit_char (unat (mV val) mod 1000 div 10 mod 10),
            digit_char (unat (mV val) mod 1000 mod 10)] @ CRLF \<and>
         mV 0xFFF = 2500 \<and> serial_output (RTCoreMain_loop 0xFFF) = ''2.500'' @ CRLF \<and>
         mV 0 = 0 \<and> serial_output (RTCoreMain_loop 0) = ''0.000'' @ CRLF \<and>
         mV 2048 = 1250 \<and> serial_output (RTCoreMain_loop 2048) = ''1.250'' @ CRLF \<and>
         mV 2047 = 1249 \<and> serial_output (RTCoreMain_loop 2047) = ''1.249'' @ CRLF"
proof -
  have ex: "mV 0xFFF = 2500" "mV 0 = 0" "mV 2048 = 1250" "mV 2047 = 1249"
    by (simp_all add: mV_def)
  have "serial_output (RTCoreMain_loop 0xFFF) = ''2.500'' @ CRLF"
    "serial_output (RTCoreMain_loop 0) = ''0.000'' @ CRLF"
    "serial_output (RTCoreMain_loop 2048) = ''1.250'' @ CRLF"
    "serial_output (RTCoreMain_loop 2047) = ''1.249'' @ CRLF"
    using line_digits [of "0xFFF"] line_digits [of 0] line_digits [of 2048]
      line_digits [of 2047]
    by (simp_all add: ex digits)
  with ex raw_bounds(3) [OF assms] line_digits [OF assms] show ?thesis by simp
qed

theorem C1_millivolt_line_witness:
  "(41 :: u32) \<le> 0xFFF \<and> unat (mV 41) = 25 \<and>
   serial_output (RTCoreMain_loop 41) = ''0.025'' @ CRLF"
  using C1_millivolt_line [of 41] by (simp add: digits)

text \<open>
  C1 as the specification words it does not hold at sample 2048:
  \<open>2048 * 2500 div 4095\<close> is 1250, not 1249.
\<close>

theorem C1_sample_2048_is_1250:
  "mV 2048 \<noteq> 1249 \<and> serial_output (RTCoreMain_loop 2048) \<noteq> ''1.249'' @ CRLF"
  using line_digits [of 2048] by (simp add: mV_def digits)

end
